theory Spec2Isabelle
  imports Main
begin

section \<open>The message middleware of junction\<close>

text \<open>
  The development follows \<^verbatim>\<open>src/lib/junction/middleware/message.js\<close>: the exported
  constructor \<^verbatim>\<open>message(fn)\<close>, the middleware function it returns and
  \<^verbatim>\<open>Handler.prototype._handle\<close>. The handler inherits from Node's
  \<^verbatim>\<open>events.EventEmitter\<close>; the stanza is an XML element of the XMPP library. Both
  are collaborators outside the repository and are modelled by what the source uses of them.
\<close>

subsection \<open>Stanzas\<close>

text \<open>
  Modelled from the spec: the stanza model is not part of the repository. The spec gives
  it three queries, the root element's name (\<^verbatim>\<open>is\<close>), an optional string for
  an attribute (\<^verbatim>\<open>attr\<close>) and an optional child element found by name
  (\<^verbatim>\<open>getChild\<close>). An element is its name, its attributes in document order and
  its child elements (text children never answer \<^verbatim>\<open>getChild\<close> and are left out).
\<close>

datatype element =
  Element (name: string) (attrs: "(string \<times> string) list") (children: "element list")

text \<open>\<^verbatim>\<open>stanza.is(n)\<close> (the word \<^verbatim>\<open>is\<close> is reserved in Isar).\<close>

definition is_named :: "element \<Rightarrow> string \<Rightarrow> bool" where
  "is_named stanza n = (name stanza = n)"

text \<open>\<^verbatim>\<open>stanza.attr(n)\<close>: the value, or \<^verbatim>\<open>undefined\<close> as \<open>None\<close>.\<close>

definition attr :: "element \<Rightarrow> string \<Rightarrow> string option" where
  "attr stanza n = map_of (attrs stanza) n"

text \<open>\<^verbatim>\<open>stanza.getChild(n)\<close>: the first child of that name, or \<^verbatim>\<open>undefined\<close>.\<close>

definition getChild :: "element \<Rightarrow> string \<Rightarrow> element option" where
  "getChild stanza n = find (\<lambda>c. name c = n) (children stanza)"

text \<open>
  JavaScript's truth value of what \<^verbatim>\<open>attr\<close> returns: \<^verbatim>\<open>undefined\<close> and the
  empty string are false, every other string is true. (A child element is an object,
  always true, so for \<^verbatim>\<open>getChild\<close> the test is \<open>\<noteq> None\<close>.)
\<close>

definition truthy :: "string option \<Rightarrow> bool" where
  "truthy v = (case v of None \<Rightarrow> False | Some s \<Rightarrow> s \<noteq> [])"

text \<open>
  The event name a value stands for when it is passed as first argument of
  \<^verbatim>\<open>emit\<close>: a string is itself, \<^verbatim>\<open>undefined\<close> is the key \<^verbatim>\<open>"undefined"\<close>.
\<close>

definition event_name :: "string option \<Rightarrow> string" where
  "event_name v = (case v of None \<Rightarrow> ''undefined'' | Some s \<Rightarrow> s)"

subsection \<open>Callbacks, exceptions and the trace of calls\<close>

text \<open>
  A listener is a JavaScript function object; the model names it by a number and looks
  its behaviour up in a table. The state a callback can reach is the handler's table of
  listeners (the callback may hold the handler and call \<^verbatim>\<open>on\<close> later) and the
  application's own state. A callback returns or throws, and leaves a new state.
\<close>

type_synonym lid = nat

datatype exn = JSError string | Thrown nat

record 'w state =
  listeners :: "string \<Rightarrow> lid list"
  app :: 'w

type_synonym 'w callback = "'w state \<Rightarrow> exn option \<times> 'w state"

type_synonym 'w listener = "element \<Rightarrow> 'w callback"

text \<open>
  What the middleware calls, in order: the setup function, a listener with its single
  argument, the continuation \<^verbatim>\<open>next\<close>. A run yields the exception thrown to the
  caller (or \<open>None\<close>), the calls made and the final state.
\<close>

datatype call = CallSetup | CallListener lid element | CallNext

type_synonym 'w run = "exn option \<times> call list \<times> 'w state"

definition outcome :: "'w run \<Rightarrow> exn option" where
  "outcome r = fst r"

definition calls :: "'w run \<Rightarrow> call list" where
  "calls r = fst (snd r)"

definition final :: "'w run \<Rightarrow> 'w state" where
  "final r = snd (snd r)"

subsection \<open>The event emitter\<close>

text \<open>
  Modelled from the spec: \<^verbatim>\<open>Handler\<close> only inherits from Node's
  \<^verbatim>\<open>EventEmitter\<close>, whose code is not part of the repository. The spec gives it
  subscription by category and publication with a payload: the subscribers of the
  category are called synchronously, in the order of their registration, and an
  exception of a subscriber is not caught. The source's own comment adds the default
  action for the event \<^verbatim>\<open>error\<close>.
\<close>

text \<open>\<^verbatim>\<open>new Handler()\<close>: an emitter with no listener for any event.\<close>

definition fresh :: "'w \<Rightarrow> 'w state" where
  "fresh w = \<lparr>listeners = (\<lambda>ev. []), app = w\<rparr>"

text \<open>
  \<^verbatim>\<open>handler.on(ev, l)\<close> appends the listener to the list of its event.
\<close>

definition on :: "string \<Rightarrow> lid \<Rightarrow> 'w state \<Rightarrow> 'w state" where
  "on ev l st = st\<lparr>listeners := (listeners st)(ev := listeners st ev @ [l])\<rparr>"

text \<open>
  The loop of \<^verbatim>\<open>emit\<close> over the listeners it found: each is called with the
  stanza; one that throws ends the loop, and the exception leaves \<^verbatim>\<open>emit\<close>.
\<close>

fun call_listeners ::
  "(lid \<Rightarrow> 'w listener) \<Rightarrow> lid list \<Rightarrow> element \<Rightarrow> 'w state \<Rightarrow> 'w run" where
  "call_listeners code [] x st = (None, [], st)"
| "call_listeners code (l # ls) x st =
     (case code l x st of
        (Some e, st') \<Rightarrow> (Some e, [CallListener l x], st')
      | (None, st') \<Rightarrow>
          (case call_listeners code ls x st' of
             (r, tr, st'') \<Rightarrow> (r, CallListener l x # tr, st'')))"

text \<open>
  \<^verbatim>\<open>this.emit(ev, stanza)\<close>: the listeners of \<^verbatim>\<open>ev\<close> at the time of the call, in
  the order of their registration. The event \<^verbatim>\<open>error\<close> with no listener throws
  (the default action the comment in \<^verbatim>\<open>_handle\<close> speaks of).
\<close>

definition emit :: "(lid \<Rightarrow> 'w listener) \<Rightarrow> string \<Rightarrow> element \<Rightarrow> 'w state \<Rightarrow> 'w run" where
  "emit code ev x st =
     (let ls = listeners st ev in
      if ev = ''error'' \<and> ls = []
      then (Some (JSError ''Uncaught, unspecified error event.''), [], st)
      else call_listeners code ls x st)"

subsection \<open>The handler and the middleware\<close>

text \<open>\<^verbatim>\<open>Handler.prototype._handle\<close>, branch by branch.\<close>

definition handle :: "(lid \<Rightarrow> 'w listener) \<Rightarrow> element \<Rightarrow> 'w state \<Rightarrow> 'w run" where
  "handle code stanza st =
     (if getChild stanza ''composing'' \<noteq> None then emit code ''composing'' stanza st
      else if getChild stanza ''paused'' \<noteq> None then emit code ''paused'' stanza st
      else if \<not> truthy (attr stanza ''type'') then emit code ''normal'' stanza st
      else if attr stanza ''type'' = Some ''error'' then emit code ''err'' stanza st
      else emit code (event_name (attr stanza ''type'')) stanza st)"

text \<open>
  The category of a stanza: the event name that \<^verbatim>\<open>_handle\<close> passes to
  \<^verbatim>\<open>emit\<close>, read off the same chain of tests.
\<close>

definition category :: "element \<Rightarrow> string" where
  "category stanza =
     (if getChild stanza ''composing'' \<noteq> None then ''composing''
      else if getChild stanza ''paused'' \<noteq> None then ''paused''
      else if \<not> truthy (attr stanza ''type'') then ''normal''
      else if attr stanza ''type'' = Some ''error'' then ''err''
      else event_name (attr stanza ''type''))"

text \<open>
  The function \<^verbatim>\<open>message(stanza, next)\<close> returned by the constructor. An exception
  of \<^verbatim>\<open>_handle\<close> leaves the function before \<^verbatim>\<open>next()\<close>; nothing catches it.
\<close>

definition middleware ::
  "(lid \<Rightarrow> 'w listener) \<Rightarrow> element \<Rightarrow> 'w callback \<Rightarrow> 'w state \<Rightarrow> 'w run" where
  "middleware code stanza next st =
     (if \<not> is_named stanza ''message''
      then (case next st of (r, st') \<Rightarrow> (r, [CallNext], st'))
      else (case handle code stanza st of
              (Some e, tr, st') \<Rightarrow> (Some e, tr, st')
            | (None, tr, st') \<Rightarrow>
                (case next st' of (r, st'') \<Rightarrow> (r, tr @ [CallNext], st''))))"

text \<open>
  The constructor \<^verbatim>\<open>message(fn)\<close>. The argument is \<open>None\<close> when it is missing
  (or false in JavaScript's sense). On success the handler is part of the state, and
  the returned function is \<open>middleware\<close> on that state; \<open>Inl\<close> is the exception
  thrown, with the calls made before it and the application state.
\<close>

definition message ::
  "'w callback option \<Rightarrow> 'w \<Rightarrow> (exn \<times> call list \<times> 'w) + (call list \<times> 'w state)" where
  "message fn w =
     (case fn of
        None \<Rightarrow> Inl (JSError ''message middleware requires a callback function'', [], w)
      | Some f \<Rightarrow>
          (case f (fresh w) of
             (Some e, st) \<Rightarrow> Inl (e, [CallSetup], app st)
           | (None, st) \<Rightarrow> Inr ([CallSetup], st)))"

text \<open>The calls made by a construction, whether it threw or not.\<close>

definition made :: "(exn \<times> call list \<times> 'w) + (call list \<times> 'w state) \<Rightarrow> call list" where
  "made r = (case r of Inl (e, tr, w) \<Rightarrow> tr | Inr (tr, st) \<Rightarrow> tr)"

subsection \<open>Listeners that return\<close>

text \<open>
  What it means that no listener of a list throws: the listeners are run in turn on the
  stanza, each in the state its predecessor has left. The result is the state after the
  last one when every one of them returns, and \<open>None\<close> when one of them throws. The
  function reads the listeners' behaviour only; it is the hypothesis of the theorems on
  dispatch, not a part of the emitter.
\<close>

fun after_returns ::
  "(lid \<Rightarrow> 'w listener) \<Rightarrow> lid list \<Rightarrow> element \<Rightarrow> 'w state \<Rightarrow> 'w state option" where
  "after_returns code [] x st = Some st"
| "after_returns code (l # ls) x st =
     (case code l x st of
        (None, st') \<Rightarrow> after_returns code ls x st'
      | (Some e, st') \<Rightarrow> None)"

subsection \<open>Sample callbacks\<close>

text \<open>
  Concrete callbacks for the examples below: listeners that all return, listeners of
  which one throws, a continuation that returns, and a setup function that registers
  listener 0 and then listener 1 for \<^verbatim>\<open>chat\<close>.
\<close>

fun quiet :: "lid \<Rightarrow> unit listener" where
  "quiet l x st = (None, st)"

fun faulty :: "lid \<Rightarrow> lid \<Rightarrow> unit listener" where
  "faulty bad l x st = (if l = bad then (Some (Thrown l), st) else (None, st))"

definition proceed :: "unit callback" where
  "proceed st = (None, st)"

definition chat_setup :: "unit callback" where
  "chat_setup st = (None, on ''chat'' 1 (on ''chat'' 0 st))"


section \<open>Properties\<close>

subsection \<open>The category and the loop over the listeners\<close>

lemma handle_category: "handle code stanza st = emit code (category stanza) stanza st"
  by (simp add: handle_def category_def)

text \<open>No stanza is dispatched under the event name \<^verbatim>\<open>error\<close>.\<close>

lemma category_not_error: "category stanza \<noteq> ''error''"
  by (auto simp: category_def truthy_def event_name_def split: option.splits)

lemma handle_call_listeners:
  "handle code stanza st = call_listeners code (listeners st (category stanza)) stanza st"
  by (simp add: handle_category emit_def category_not_error)

text \<open>One turn of the loop, for a listener that returns and for one that throws.\<close>

lemma step_returned:
  assumes "code l x st = (None, st')"
  shows "outcome (call_listeners code (l # ls) x st) = outcome (call_listeners code ls x st')"
    and "calls (call_listeners code (l # ls) x st)
         = CallListener l x # calls (call_listeners code ls x st')"
    and "final (call_listeners code (l # ls) x st) = final (call_listeners code ls x st')"
  using assms by (simp_all add: outcome_def calls_def final_def split: prod.splits)

lemma step_raised:
  assumes "code l x st = (Some e, st')"
  shows "outcome (call_listeners code (l # ls) x st) = Some e"
    and "calls (call_listeners code (l # ls) x st) = [CallListener l x]"
    and "final (call_listeners code (l # ls) x st) = st'"
  using assms by (simp_all add: outcome_def calls_def final_def)

text \<open>Listeners that leave the state alone leave it alone together.\<close>

lemma call_listeners_pure:
  "(\<And>l t. snd (code l x t) = t) \<Longrightarrow> final (call_listeners code ls x st) = st"
proof (induction ls arbitrary: st)
  case Nil
  then show ?case by (simp add: final_def)
next
  case (Cons l ls)
  obtain r st' where c: "code l x st = (r, st')" by (cases "code l x st")
  have "snd (code l x st) = st" by (rule Cons.prems)
  with c have st': "st' = st" by simp
  show ?case
  proof (cases r)
    case None
    with c st' Cons show ?thesis by (simp add: step_returned del: call_listeners.simps)
  next
    case (Some e)
    with c st' show ?thesis by (simp add: step_raised del: call_listeners.simps)
  qed
qed

lemma listener_calls_no_next: "CallNext \<notin> set (map (\<lambda>l. CallListener l x) ls)"
  by auto

text \<open>
  The loop against the listeners' own behaviour: when all return, all are called and the
  loop returns; when one throws after its predecessors have returned, the loop ends
  with it and throws its exception.
\<close>

lemma call_listeners_all_return:
  "after_returns code ls x st = Some st' \<Longrightarrow>
   call_listeners code ls x st = (None, map (\<lambda>l. CallListener l x) ls, st')"
proof (induction ls arbitrary: st)
  case Nil
  then show ?case by simp
next
  case (Cons l ls)
  obtain r st1 where c: "code l x st = (r, st1)" by (cases "code l x st")
  show ?case
  proof (cases r)
    case None
    with c Cons.prems have "after_returns code ls x st1 = Some st'" by simp
    from Cons.IH [OF this] c None show ?thesis by simp
  next
    case (Some e)
    with c Cons.prems show ?thesis by simp
  qed
qed

lemma call_listeners_raise_at:
  "after_returns code pre x st = Some st1 \<Longrightarrow> code l x st1 = (Some e, st2) \<Longrightarrow>
   call_listeners code (pre @ l # post) x st
     = (Some e, map (\<lambda>l. CallListener l x) (pre @ [l]), st2)"
proof (induction pre arbitrary: st)
  case Nil
  then show ?case by simp
next
  case (Cons p pre)
  obtain r st' where c: "code p x st = (r, st')" by (cases "code p x st")
  show ?case
  proof (cases r)
    case None
    with c Cons.prems(1) have "after_returns code pre x st' = Some st1" by simp
    from Cons.IH [OF this Cons.prems(2)] c None show ?thesis by simp
  next
    case (Some e')
    with c Cons.prems(1) show ?thesis by simp
  qed
qed

lemma returned_iff_all_return:
  "(outcome (call_listeners code ls x st) = None) = (after_returns code ls x st \<noteq> None)"
proof (induction ls arbitrary: st)
  case Nil
  then show ?case by (simp add: outcome_def)
next
  case (Cons l ls)
  obtain r st' where c: "code l x st = (r, st')" by (cases "code l x st")
  show ?case
  proof (cases r)
    case None
    with c Cons.IH [of st'] show ?thesis
      by (simp add: step_returned del: call_listeners.simps)
  next
    case (Some e)
    with c show ?thesis
      by (simp add: step_raised del: call_listeners.simps)
  qed
qed

lemma count_next_listener_calls:
  "count_list (map (\<lambda>l. CallListener l x) ls) CallNext = 0"
  by (induction ls) simp_all

subsection \<open>The middleware on a message stanza\<close>

lemma middleware_message:
  "is_named s ''message'' \<Longrightarrow>
   middleware code s next st =
     (case handle code s st of
        (Some e, tr, st') \<Rightarrow> (Some e, tr, st')
      | (None, tr, st') \<Rightarrow> (case next st' of (r, st'') \<Rightarrow> (r, tr @ [CallNext], st'')))"
  by (simp add: middleware_def)

subsection \<open>Classification\<close>

text \<open>
  C1 (as amended). For a stanza whose root element is \<^verbatim>\<open>message\<close> the middleware
  dispatches under exactly one event name, the category, chosen by the first test that
  matches: a child \<^verbatim>\<open>composing\<close> gives \<^verbatim>\<open>composing\<close> whatever the
  \<^verbatim>\<open>type\<close> attribute is; otherwise a child \<^verbatim>\<open>paused\<close> gives
  \<^verbatim>\<open>paused\<close>; otherwise a \<^verbatim>\<open>type\<close> attribute that is absent or the empty
  string \<open>[]\<close> gives \<^verbatim>\<open>normal\<close>; otherwise the value \<^verbatim>\<open>error\<close> gives
  \<^verbatim>\<open>err\<close>; otherwise the category is the value of the attribute.
\<close>

theorem classification_precedence:
  assumes "is_named s ''message''"
  shows "middleware code s next st =
           (case emit code (category s) s st of
              (Some e, tr, st') \<Rightarrow> (Some e, tr, st')
            | (None, tr, st') \<Rightarrow> (case next st' of (r, st'') \<Rightarrow> (r, tr @ [CallNext], st'')))
         \<and> (getChild s ''composing'' \<noteq> None \<longrightarrow> category s = ''composing'')
         \<and> (getChild s ''composing'' = None \<and> getChild s ''paused'' \<noteq> None
              \<longrightarrow> category s = ''paused'')
         \<and> (getChild s ''composing'' = None \<and> getChild s ''paused'' = None
              \<and> (attr s ''type'' = None \<or> attr s ''type'' = Some [])
              \<longrightarrow> category s = ''normal'')
         \<and> (getChild s ''composing'' = None \<and> getChild s ''paused'' = None
              \<and> attr s ''type'' = Some ''error''
              \<longrightarrow> category s = ''err'')
         \<and> (\<forall>t. getChild s ''composing'' = None \<and> getChild s ''paused'' = None
              \<and> attr s ''type'' = Some t \<and> t \<noteq> [] \<and> t \<noteq> ''error''
              \<longrightarrow> category s = t)"
proof -
  have "middleware code s next st =
           (case emit code (category s) s st of
              (Some e, tr, st') \<Rightarrow> (Some e, tr, st')
            | (None, tr, st') \<Rightarrow> (case next st' of (r, st'') \<Rightarrow> (r, tr @ [CallNext], st'')))"
    using assms by (simp add: middleware_message handle_category)
  moreover have "getChild s ''composing'' \<noteq> None \<longrightarrow> category s = ''composing''"
    by (simp add: category_def)
  moreover have "getChild s ''composing'' = None \<and> getChild s ''paused'' \<noteq> None
              \<longrightarrow> category s = ''paused''"
    by (simp add: category_def)
  moreover have "getChild s ''composing'' = None \<and> getChild s ''paused'' = None
              \<and> (attr s ''type'' = None \<or> attr s ''type'' = Some [])
              \<longrightarrow> category s = ''normal''"
    by (auto simp: category_def truthy_def)
  moreover have "getChild s ''composing'' = None \<and> getChild s ''paused'' = None
              \<and> attr s ''type'' = Some ''error''
              \<longrightarrow> category s = ''err''"
    by (simp add: category_def truthy_def)
  moreover have "\<forall>t. getChild s ''composing'' = None \<and> getChild s ''paused'' = None
              \<and> attr s ''type'' = Some t \<and> t \<noteq> [] \<and> t \<noteq> ''error''
              \<longrightarrow> category s = t"
    by (simp add: category_def truthy_def event_name_def)
  ultimately show ?thesis by blast
qed

text \<open>
  The five rules at five message stanzas, among them the spec's scenario of a
  \<^verbatim>\<open>composing\<close> child together with \<^verbatim>\<open>type="chat"\<close>.
\<close>

theorem classification_precedence_witness:
  "category (Element ''message'' [(''type'', ''chat'')] [Element ''composing'' [] []]) = ''composing''
   \<and> category (Element ''message'' [] [Element ''body'' [] [], Element ''paused'' [] []]) = ''paused''
   \<and> category (Element ''message'' [(''to'', ''a'')] []) = ''normal''
   \<and> category (Element ''message'' [(''type'', ''error'')] []) = ''err''
   \<and> category (Element ''message'' [(''type'', ''headline'')] []) = ''headline''"
proof -
  let ?a = "Element ''message'' [(''type'', ''chat'')] [Element ''composing'' [] []]"
  let ?b = "Element ''message'' [] [Element ''body'' [] [], Element ''paused'' [] []]"
  let ?c = "Element ''message'' [(''to'', ''a'')] []"
  let ?d = "Element ''message'' [(''type'', ''error'')] []"
  let ?e = "Element ''message'' [(''type'', ''headline'')] []"
  have a: "is_named ?a ''message''" "getChild ?a ''composing'' \<noteq> None"
    by (simp_all add: is_named_def getChild_def)
  have b: "is_named ?b ''message''"
    "getChild ?b ''composing'' = None \<and> getChild ?b ''paused'' \<noteq> None"
    by (simp_all add: is_named_def getChild_def)
  have c: "is_named ?c ''message''"
    "getChild ?c ''composing'' = None \<and> getChild ?c ''paused'' = None
     \<and> (attr ?c ''type'' = None \<or> attr ?c ''type'' = Some [])"
    by (simp_all add: is_named_def getChild_def attr_def)
  have d: "is_named ?d ''message''"
    "getChild ?d ''composing'' = None \<and> getChild ?d ''paused'' = None
     \<and> attr ?d ''type'' = Some ''error''"
    by (simp_all add: is_named_def getChild_def attr_def)
  have e: "is_named ?e ''message''"
    "getChild ?e ''composing'' = None \<and> getChild ?e ''paused'' = None
     \<and> attr ?e ''type'' = Some ''headline'' \<and> ''headline'' \<noteq> [] \<and> ''headline'' \<noteq> ''error''"
    by (simp_all add: is_named_def getChild_def attr_def)
  have "category ?a = ''composing''"
    using classification_precedence [OF a(1), of quiet proceed "fresh ()"] a(2) by blast
  moreover have "category ?b = ''paused''"
    using classification_precedence [OF b(1), of quiet proceed "fresh ()"] b(2) by blast
  moreover have "category ?c = ''normal''"
    using classification_precedence [OF c(1), of quiet proceed "fresh ()"] c(2) by blast
  moreover have "category ?d = ''err''"
    using classification_precedence [OF d(1), of quiet proceed "fresh ()"] d(2) by blast
  moreover have "category ?e = ''headline''"
    using classification_precedence [OF e(1), of quiet proceed "fresh ()"] e(2) by blast
  ultimately show ?thesis by blast
qed

text \<open>
  C1 as stated fails for \<^verbatim>\<open><message type=""/>\<close>: the attribute is present, is not
  \<^verbatim>\<open>error\<close>, and its literal value is the empty string, yet the category is
  \<^verbatim>\<open>normal\<close>; the listener of \<^verbatim>\<open>normal\<close> is called and the listener
  registered under the empty name is not.
\<close>

theorem empty_type_counterexample:
  "is_named (Element ''message'' [(''type'', [])] []) ''message''
   \<and> getChild (Element ''message'' [(''type'', [])] []) ''composing'' = None
   \<and> getChild (Element ''message'' [(''type'', [])] []) ''paused'' = None
   \<and> attr (Element ''message'' [(''type'', [])] []) ''type'' = Some []
   \<and> category (Element ''message'' [(''type'', [])] []) = ''normal''
   \<and> category (Element ''message'' [(''type'', [])] []) \<noteq> []
   \<and> calls (middleware quiet (Element ''message'' [(''type'', [])] []) proceed
        (on [] 2 (on ''normal'' 1 (fresh ()))))
      = [CallListener 1 (Element ''message'' [(''type'', [])] []), CallNext]"
  by (simp add: is_named_def getChild_def attr_def category_def truthy_def middleware_def
      handle_def emit_def on_def fresh_def calls_def proceed_def)

text \<open>
  C2. A stanza with \<^verbatim>\<open>type="error"\<close> and neither a \<^verbatim>\<open>composing\<close> nor a
  \<^verbatim>\<open>paused\<close> child is dispatched under the name \<^verbatim>\<open>err\<close>, never under
  \<^verbatim>\<open>error\<close>: the listeners called are those of \<^verbatim>\<open>err\<close> and no others, and the
  emitter's default action for an \<^verbatim>\<open>error\<close> event without listener is not met.
\<close>

theorem error_stanza_dispatched_as_err:
  assumes "getChild s ''composing'' = None"
    and "getChild s ''paused'' = None"
    and "attr s ''type'' = Some ''error''"
  shows "category s = ''err'' \<and> category s \<noteq> ''error''
         \<and> handle code s st = emit code ''err'' s st
         \<and> handle code s st = call_listeners code (listeners st ''err'') s st"
proof -
  have c: "category s = ''err''"
    using assms by (simp add: category_def truthy_def)
  then have "handle code s st = emit code ''err'' s st"
    by (simp add: handle_category)
  moreover have "handle code s st = call_listeners code (listeners st ''err'') s st"
    using c by (simp add: handle_call_listeners)
  ultimately show ?thesis using c by simp
qed

text \<open>
  An error stanza with one listener on \<^verbatim>\<open>err\<close> and one on \<^verbatim>\<open>error\<close>: only the
  first is called.
\<close>

theorem error_stanza_dispatched_as_err_witness:
  "category (Element ''message'' [(''type'', ''error'')] []) = ''err''
   \<and> calls (handle quiet (Element ''message'' [(''type'', ''error'')] [])
        (on ''error'' 2 (on ''err'' 1 (fresh ()))))
      = [CallListener 1 (Element ''message'' [(''type'', ''error'')] [])]"
proof -
  let ?s = "Element ''message'' [(''type'', ''error'')] []"
  have h: "getChild ?s ''composing'' = None" "getChild ?s ''paused'' = None"
    "attr ?s ''type'' = Some ''error''"
    by (simp_all add: getChild_def attr_def)
  from error_stanza_dispatched_as_err
    [OF h, of quiet "on ''error'' 2 (on ''err'' 1 (fresh ()))"]
  show ?thesis by (simp add: on_def fresh_def calls_def emit_def)
qed

text \<open>
  C9. A stanza without \<^verbatim>\<open>composing\<close> or \<^verbatim>\<open>paused\<close> child whose \<^verbatim>\<open>type\<close>
  attribute is present and equal to the empty string \<open>[]\<close> is classified
  \<^verbatim>\<open>normal\<close>, as every such stanza without a \<^verbatim>\<open>type\<close> attribute is; the empty
  string is not forwarded as the category.
\<close>

theorem empty_type_is_normal:
  assumes "getChild s ''composing'' = None"
    and "getChild s ''paused'' = None"
    and "attr s ''type'' = Some []"
  shows "category s = ''normal'' \<and> category s \<noteq> []
         \<and> handle code s st = emit code ''normal'' s st
         \<and> (\<forall>s'. getChild s' ''composing'' = None \<and> getChild s' ''paused'' = None
                \<and> attr s' ''type'' = None \<longrightarrow> category s' = category s)"
proof -
  have c: "category s = ''normal''"
    using assms by (simp add: category_def truthy_def)
  then have "handle code s st = emit code ''normal'' s st"
    by (simp add: handle_category)
  moreover have "\<forall>s'. getChild s' ''composing'' = None \<and> getChild s' ''paused'' = None
                \<and> attr s' ''type'' = None \<longrightarrow> category s' = category s"
    using c by (simp add: category_def truthy_def)
  ultimately show ?thesis using c by simp
qed

theorem empty_type_is_normal_witness:
  "category (Element ''message'' [(''from'', ''a@b''), (''type'', [])] [Element ''body'' [] []])
     = ''normal''
   \<and> category (Element ''message'' [(''from'', ''a@b'')] [Element ''body'' [] []])
     = category (Element ''message'' [(''from'', ''a@b''), (''type'', [])] [Element ''body'' [] []])"
proof -
  let ?s = "Element ''message'' [(''from'', ''a@b''), (''type'', [])] [Element ''body'' [] []]"
  let ?s' = "Element ''message'' [(''from'', ''a@b'')] [Element ''body'' [] []]"
  have h: "getChild ?s ''composing'' = None" "getChild ?s ''paused'' = None"
    "attr ?s ''type'' = Some []"
    by (simp_all add: getChild_def attr_def)
  have h': "getChild ?s' ''composing'' = None \<and> getChild ?s' ''paused'' = None
    \<and> attr ?s' ''type'' = None"
    by (simp add: getChild_def attr_def)
  from empty_type_is_normal [OF h, of quiet "fresh ()"] h'
  show ?thesis by blast
qed




text \<open>
  C8. The category is a function of three observations of the stanza alone, whether it
  has a \<^verbatim>\<open>composing\<close> child, whether it has a \<^verbatim>\<open>paused\<close> child, and its
  \<^verbatim>\<open>type\<close> attribute: two stanzas that agree on them are dispatched under the same
  event name, whatever the listeners, the states and what was processed before. The
  handler changes no state of its own: when the listeners leave the state as it is, so
  does \<^verbatim>\<open>_handle\<close>.
\<close>

theorem classification_stateless:
  assumes "(getChild s1 ''composing'' = None) = (getChild s2 ''composing'' = None)"
    and "(getChild s1 ''paused'' = None) = (getChild s2 ''paused'' = None)"
    and "attr s1 ''type'' = attr s2 ''type''"
  shows "category s1 = category s2
         \<and> handle code1 s1 st1 = emit code1 (category s1) s1 st1
         \<and> handle code2 s2 st2 = emit code2 (category s1) s2 st2
         \<and> ((\<forall>l t. snd (code1 l s1 t) = t) \<longrightarrow> final (handle code1 s1 st1) = st1)"
proof -
  have c: "category s1 = category s2"
    using assms by (simp add: category_def)
  have "handle code2 s2 st2 = emit code2 (category s1) s2 st2"
    using c by (simp add: handle_category)
  moreover have "(\<forall>l t. snd (code1 l s1 t) = t) \<longrightarrow> final (handle code1 s1 st1) = st1"
    by (simp add: handle_call_listeners call_listeners_pure)
  ultimately show ?thesis using c by (simp add: handle_category)
qed

text \<open>
  Two chat stanzas that differ in their other attributes and children; the second is
  handled in the state the first has left.
\<close>

theorem classification_stateless_witness:
  "category (Element ''message'' [(''type'', ''chat''), (''from'', ''a@b'')] [Element ''body'' [] []])
     = category (Element ''message'' [(''to'', ''c@d''), (''type'', ''chat'')] [])
   \<and> final (handle quiet
        (Element ''message'' [(''type'', ''chat''), (''from'', ''a@b'')] [Element ''body'' [] []])
        (on ''chat'' 0 (fresh ())))
     = on ''chat'' 0 (fresh ())"
proof -
  let ?s1 = "Element ''message'' [(''type'', ''chat''), (''from'', ''a@b'')] [Element ''body'' [] []]"
  let ?s2 = "Element ''message'' [(''to'', ''c@d''), (''type'', ''chat'')] []"
  have h: "(getChild ?s1 ''composing'' = None) = (getChild ?s2 ''composing'' = None)"
    "(getChild ?s1 ''paused'' = None) = (getChild ?s2 ''paused'' = None)"
    "attr ?s1 ''type'' = attr ?s2 ''type''"
    by (simp_all add: getChild_def attr_def)
  have p: "\<forall>l t. snd (quiet l ?s1 t) = t" by simp
  from classification_stateless
    [OF h, of quiet "on ''chat'' 0 (fresh ())" quiet
       "final (handle quiet ?s1 (on ''chat'' 0 (fresh ())))"] p
  show ?thesis by blast
qed

subsection \<open>Dispatch and continuation\<close>

text \<open>
  C5. For a stanza whose root element is not \<^verbatim>\<open>message\<close> the middleware calls
  no listener of any category and calls \<^verbatim>\<open>next\<close> at once, exactly once; what
  the middleware does is what \<^verbatim>\<open>next\<close> does.
\<close>

theorem non_message_bypasses:
  assumes "\<not> is_named s ''message''"
  shows "calls (middleware code s next st) = [CallNext]
         \<and> outcome (middleware code s next st) = fst (next st)
         \<and> final (middleware code s next st) = snd (next st)"
  using assms
  by (simp add: middleware_def calls_def outcome_def final_def split: prod.splits)

text \<open>
  A presence stanza that carries a \<^verbatim>\<open>composing\<close> child and \<^verbatim>\<open>type="chat"\<close>,
  with listeners on both names.
\<close>

theorem non_message_bypasses_witness:
  "\<not> is_named (Element ''presence'' [(''type'', ''chat'')] [Element ''composing'' [] []])
       ''message''
   \<and> calls (middleware quiet
        (Element ''presence'' [(''type'', ''chat'')] [Element ''composing'' [] []]) proceed
        (on ''chat'' 1 (on ''composing'' 0 (fresh ()))))
      = [CallNext]"
proof -
  have h: "\<not> is_named (Element ''presence'' [(''type'', ''chat'')] [Element ''composing'' [] []])
       ''message''"
    by (simp add: is_named_def)
  from non_message_bypasses [OF h, of quiet proceed "on ''chat'' 1 (on ''composing'' 0 (fresh ()))"] h
  show ?thesis by blast
qed

text \<open>
  C7. When no listener is registered for the category of a message stanza (\<^verbatim>\<open>err\<close>
  included), \<^verbatim>\<open>_handle\<close> returns without an exception, calls nothing and leaves
  the state as it was, and the middleware does what \<^verbatim>\<open>next\<close> does.
\<close>

theorem no_subscriber_silently_dropped:
  assumes "is_named s ''message''"
    and "listeners st (category s) = []"
  shows "handle code s st = (None, [], st)
         \<and> middleware code s next st = (fst (next st), [CallNext], snd (next st))"
proof -
  have h: "handle code s st = (None, [], st)"
    using assms(2) by (simp add: handle_call_listeners)
  then show ?thesis
    using assms(1) by (simp add: middleware_def split: prod.splits)
qed

text \<open>An error stanza and a handler without any listener.\<close>

theorem no_subscriber_silently_dropped_witness:
  "category (Element ''message'' [(''type'', ''error'')] [Element ''body'' [] []]) = ''err''
   \<and> middleware quiet (Element ''message'' [(''type'', ''error'')] [Element ''body'' [] []])
       proceed (fresh ())
     = (None, [CallNext], fresh ())"
proof -
  let ?s = "Element ''message'' [(''type'', ''error'')] [Element ''body'' [] []]"
  have c: "category ?s = ''err''"
    by (simp add: category_def getChild_def attr_def truthy_def)
  have h: "is_named ?s ''message''" "listeners (fresh ()) (category ?s) = []"
    by (simp_all add: is_named_def fresh_def)
  from no_subscriber_silently_dropped [OF h, of quiet proceed] c
  show ?thesis by (simp add: proceed_def)
qed

text \<open>
  C6 (as amended). \<^verbatim>\<open>_handle\<close> calls the listeners that are registered for the
  category when dispatch starts, each with the stanza as its only argument, in the
  order of their registration, up to and including the first one that throws: when the
  listeners \<open>pre\<close> return and the next one, \<open>l\<close>, throws, the calls are those of
  \<open>pre\<close> and \<open>l\<close> and no other. When no listener throws, every one of them is called.
  When \<open>a\<close> and then \<open>b\<close> are registered for the category and no listener throws,
  \<open>a\<close> is called before \<open>b\<close>, after the listeners that were there before.
\<close>

theorem dispatch_in_registration_order:
  "(listeners st (category s) = pre @ l # post
      \<and> after_returns code pre s st = Some st1 \<and> code l s st1 = (Some e, st2)
      \<longrightarrow> handle code s st = (Some e, map (\<lambda>l. CallListener l s) (pre @ [l]), st2))
   \<and> (after_returns code (listeners st (category s)) s st = Some st'
      \<longrightarrow> handle code s st
            = (None, map (\<lambda>l. CallListener l s) (listeners st (category s)), st'))
   \<and> (after_returns code (listeners st0 (category s) @ [a, b]) s
          (on (category s) b (on (category s) a st0)) \<noteq> None
      \<longrightarrow> calls (handle code s (on (category s) b (on (category s) a st0)))
            = map (\<lambda>l. CallListener l s) (listeners st0 (category s))
              @ [CallListener a s, CallListener b s])"
proof (intro conjI impI)
  assume "listeners st (category s) = pre @ l # post
      \<and> after_returns code pre s st = Some st1 \<and> code l s st1 = (Some e, st2)"
  then show "handle code s st = (Some e, map (\<lambda>l. CallListener l s) (pre @ [l]), st2)"
    by (simp add: handle_call_listeners call_listeners_raise_at del: call_listeners.simps)
next
  assume "after_returns code (listeners st (category s)) s st = Some st'"
  then show "handle code s st
            = (None, map (\<lambda>l. CallListener l s) (listeners st (category s)), st')"
    by (simp add: handle_call_listeners call_listeners_all_return)
next
  let ?st = "on (category s) b (on (category s) a st0)"
  have l: "listeners ?st (category s) = listeners st0 (category s) @ [a, b]"
    by (simp add: on_def)
  assume "after_returns code (listeners st0 (category s) @ [a, b]) s ?st \<noteq> None"
  then obtain st' where "after_returns code (listeners ?st (category s)) s ?st = Some st'"
    using l by auto
  then have "handle code s ?st
            = (None, map (\<lambda>l. CallListener l s) (listeners ?st (category s)), st')"
    by (simp add: handle_call_listeners call_listeners_all_return)
  then show "calls (handle code s ?st)
            = map (\<lambda>l. CallListener l s) (listeners st0 (category s))
              @ [CallListener a s, CallListener b s]"
    using l by (simp add: calls_def)
qed

text \<open>
  The spec's scenario: the setup function registers listener 0 and then listener 1 for
  \<^verbatim>\<open>chat\<close>; both return; a chat stanza reaches 0 before 1. And three listeners
  for \<^verbatim>\<open>normal\<close> of which the second throws: the first two are called, in order.
\<close>

theorem dispatch_in_registration_order_witness:
  "message (Some chat_setup) () = Inr ([CallSetup], on ''chat'' 1 (on ''chat'' 0 (fresh ())))
   \<and> calls (handle quiet (Element ''message'' [(''type'', ''chat'')] [Element ''body'' [] []])
        (on ''chat'' 1 (on ''chat'' 0 (fresh ()))))
      = [CallListener 0 (Element ''message'' [(''type'', ''chat'')] [Element ''body'' [] []]),
         CallListener 1 (Element ''message'' [(''type'', ''chat'')] [Element ''body'' [] []])]
   \<and> handle (faulty 8) (Element ''message'' [] [])
        (on ''normal'' 9 (on ''normal'' 8 (on ''normal'' 7 (fresh ()))))
      = (Some (Thrown 8),
         [CallListener 7 (Element ''message'' [] []), CallListener 8 (Element ''message'' [] [])],
         on ''normal'' 9 (on ''normal'' 8 (on ''normal'' 7 (fresh ()))))"
proof -
  let ?s = "Element ''message'' [(''type'', ''chat'')] [Element ''body'' [] []]"
  let ?st = "on ''chat'' 1 (on ''chat'' 0 (fresh ()))"
  let ?n = "Element ''message'' [] []"
  let ?sn = "on ''normal'' 9 (on ''normal'' 8 (on ''normal'' 7 (fresh ())))"
  have m: "message (Some chat_setup) () = Inr ([CallSetup], ?st)"
    by (simp add: message_def chat_setup_def)
  have c: "category ?s = ''chat''"
    by (simp add: category_def getChild_def attr_def truthy_def event_name_def)
  have l: "listeners (fresh ()) ''chat'' = []"
    by (simp add: fresh_def)
  have r: "after_returns quiet (listeners (fresh ()) (category ?s) @ [0, 1]) ?s
             (on (category ?s) 1 (on (category ?s) 0 (fresh ()))) \<noteq> None"
    by (simp add: c l)
  from dispatch_in_registration_order
    [where s = ?s and code = quiet and ?st0.0 = "fresh ()" and a = 0 and b = 1] r
  have "calls (handle quiet ?s (on (category ?s) 1 (on (category ?s) 0 (fresh ()))))
        = map (\<lambda>l. CallListener l ?s) (listeners (fresh ()) (category ?s))
          @ [CallListener 0 ?s, CallListener 1 ?s]"
    by blast
  then have first: "calls (handle quiet ?s ?st) = [CallListener 0 ?s, CallListener 1 ?s]"
    by (simp add: c l)
  have cn: "category ?n = ''normal''"
    by (simp add: category_def getChild_def attr_def truthy_def)
  have h: "listeners ?sn (category ?n) = [7] @ 8 # [9]
      \<and> after_returns (faulty 8) [7] ?n ?sn = Some ?sn
      \<and> faulty 8 8 ?n ?sn = (Some (Thrown 8), ?sn)"
    by (simp add: cn on_def fresh_def)
  from dispatch_in_registration_order
    [where s = ?n and st = ?sn and code = "faulty 8" and pre = "[7]" and l = 8
       and post = "[9]" and ?st1.0 = ?sn and e = "Thrown 8" and ?st2.0 = ?sn] h
  have "handle (faulty 8) ?n ?sn
        = (Some (Thrown 8), map (\<lambda>l. CallListener l ?n) ([7] @ [8]), ?sn)"
    by blast
  then have second: "handle (faulty 8) ?n ?sn
        = (Some (Thrown 8), [CallListener 7 ?n, CallListener 8 ?n], ?sn)"
    by simp
  from m first second show ?thesis by blast
qed

text \<open>
  C6 as stated fails when a listener throws: listener 0 and then listener 1 are
  registered for \<^verbatim>\<open>chat\<close>, listener 0 throws, and listener 1 is never called.
\<close>

theorem registration_order_counterexample:
  "listeners (on ''chat'' 1 (on ''chat'' 0 (fresh ()))) ''chat'' = [0, 1]
   \<and> category (Element ''message'' [(''type'', ''chat'')] []) = ''chat''
   \<and> calls (handle (faulty 0) (Element ''message'' [(''type'', ''chat'')] [])
        (on ''chat'' 1 (on ''chat'' 0 (fresh ()))))
      = [CallListener 0 (Element ''message'' [(''type'', ''chat'')] [])]
   \<and> CallListener 1 (Element ''message'' [(''type'', ''chat'')] [])
      \<notin> set (calls (handle (faulty 0) (Element ''message'' [(''type'', ''chat'')] [])
            (on ''chat'' 1 (on ''chat'' 0 (fresh ())))))"
  by (simp add: category_def getChild_def attr_def truthy_def event_name_def
      handle_def emit_def on_def fresh_def calls_def)

text \<open>
  C3 (as amended). When a listener throws during the dispatch of a message stanza (the
  listeners \<open>pre\<close> registered before it have returned, and \<open>l\<close> throws \<open>e\<close>), the
  middleware throws \<open>e\<close> to its caller, the listeners \<open>post\<close> registered after
  \<open>l\<close> are not called, and \<^verbatim>\<open>next\<close> is not called. When no listener throws, all
  listeners of the category are called and then \<^verbatim>\<open>next\<close>, exactly once.
  \<^verbatim>\<open>_handle\<close> returns if and only if no listener throws.
\<close>

theorem subscriber_error_propagates:
  assumes "is_named s ''message''"
  shows "(listeners st (category s) = pre @ l # post
            \<and> after_returns code pre s st = Some st1 \<and> code l s st1 = (Some e, st2)
            \<longrightarrow> middleware code s next st
                  = (Some e, map (\<lambda>l. CallListener l s) (pre @ [l]), st2)
                \<and> CallNext \<notin> set (calls (middleware code s next st)))
       \<and> (after_returns code (listeners st (category s)) s st = Some st'
            \<longrightarrow> middleware code s next st
                  = (fst (next st'),
                     map (\<lambda>l. CallListener l s) (listeners st (category s)) @ [CallNext],
                     snd (next st'))
                \<and> count_list (calls (middleware code s next st)) CallNext = 1)
       \<and> ((outcome (handle code s st) = None)
            = (after_returns code (listeners st (category s)) s st \<noteq> None))"
proof (intro conjI impI)
  assume "listeners st (category s) = pre @ l # post
            \<and> after_returns code pre s st = Some st1 \<and> code l s st1 = (Some e, st2)"
  then have h: "handle code s st = (Some e, map (\<lambda>l. CallListener l s) (pre @ [l]), st2)"
    by (simp add: handle_call_listeners call_listeners_raise_at del: call_listeners.simps)
  with assms show m: "middleware code s next st
                  = (Some e, map (\<lambda>l. CallListener l s) (pre @ [l]), st2)"
    by (simp add: middleware_def)
  show "CallNext \<notin> set (calls (middleware code s next st))"
    unfolding m calls_def fst_conv snd_conv by (rule listener_calls_no_next)
next
  assume "after_returns code (listeners st (category s)) s st = Some st'"
  then have h: "handle code s st
            = (None, map (\<lambda>l. CallListener l s) (listeners st (category s)), st')"
    by (simp add: handle_call_listeners call_listeners_all_return)
  with assms show m: "middleware code s next st
                  = (fst (next st'),
                     map (\<lambda>l. CallListener l s) (listeners st (category s)) @ [CallNext],
                     snd (next st'))"
    by (simp add: middleware_def split: prod.splits)
  show "count_list (calls (middleware code s next st)) CallNext = 1"
    by (simp add: m calls_def count_next_listener_calls)
next
  show "(outcome (handle code s st) = None)
            = (after_returns code (listeners st (category s)) s st \<noteq> None)"
    by (simp only: handle_call_listeners returned_iff_all_return)
qed

text \<open>
  Three listeners on \<^verbatim>\<open>groupchat\<close>: when the second throws, the third and
  \<^verbatim>\<open>next\<close> are not called and the exception is the middleware's; when all return,
  \<^verbatim>\<open>next\<close> follows them.
\<close>

theorem subscriber_error_propagates_witness:
  "middleware (faulty 5) (Element ''message'' [(''type'', ''groupchat'')] []) proceed
      (on ''groupchat'' 6 (on ''groupchat'' 5 (on ''groupchat'' 4 (fresh ()))))
     = (Some (Thrown 5),
        [CallListener 4 (Element ''message'' [(''type'', ''groupchat'')] []),
         CallListener 5 (Element ''message'' [(''type'', ''groupchat'')] [])],
        on ''groupchat'' 6 (on ''groupchat'' 5 (on ''groupchat'' 4 (fresh ()))))
   \<and> middleware quiet (Element ''message'' [(''type'', ''groupchat'')] []) proceed
        (on ''groupchat'' 6 (on ''groupchat'' 5 (on ''groupchat'' 4 (fresh ()))))
     = (None,
        [CallListener 4 (Element ''message'' [(''type'', ''groupchat'')] []),
         CallListener 5 (Element ''message'' [(''type'', ''groupchat'')] []),
         CallListener 6 (Element ''message'' [(''type'', ''groupchat'')] []), CallNext],
        on ''groupchat'' 6 (on ''groupchat'' 5 (on ''groupchat'' 4 (fresh ()))))"
proof -
  let ?s = "Element ''message'' [(''type'', ''groupchat'')] []"
  let ?st = "on ''groupchat'' 6 (on ''groupchat'' 5 (on ''groupchat'' 4 (fresh ())))"
  have n: "is_named ?s ''message''" by (simp add: is_named_def)
  have c: "category ?s = ''groupchat''"
    by (simp add: category_def getChild_def attr_def truthy_def event_name_def)
  have l: "listeners ?st ''groupchat'' = [4, 5, 6]"
    by (simp add: on_def fresh_def)
  have a: "listeners ?st (category ?s) = [4] @ 5 # [6]
      \<and> after_returns (faulty 5) [4] ?s ?st = Some ?st
      \<and> faulty 5 5 ?s ?st = (Some (Thrown 5), ?st)"
    by (simp add: c l)
  have b: "after_returns quiet (listeners ?st (category ?s)) ?s ?st = Some ?st"
    by (simp add: c l)
  from subscriber_error_propagates
    [OF n, where st = ?st and code = "faulty 5" and pre = "[4]" and l = 5 and post = "[6]"
       and ?st1.0 = ?st and e = "Thrown 5" and ?st2.0 = ?st and ?next = proceed] a
  have "middleware (faulty 5) ?s proceed ?st
        = (Some (Thrown 5), map (\<lambda>l. CallListener l ?s) ([4] @ [5]), ?st)"
    by blast
  then have first: "middleware (faulty 5) ?s proceed ?st
        = (Some (Thrown 5), [CallListener 4 ?s, CallListener 5 ?s], ?st)"
    by simp
  from subscriber_error_propagates
    [OF n, where st = ?st and code = quiet and st' = ?st and ?next = proceed] b
  have "middleware quiet ?s proceed ?st
        = (fst (proceed ?st),
           map (\<lambda>l. CallListener l ?s) (listeners ?st (category ?s)) @ [CallNext],
           snd (proceed ?st))"
    by blast
  then have second: "middleware quiet ?s proceed ?st
        = (None, [CallListener 4 ?s, CallListener 5 ?s, CallListener 6 ?s, CallNext], ?st)"
    by (simp add: c l proceed_def)
  from first second show ?thesis by blast
qed

text \<open>
  C3 as stated fails: of three listeners for \<^verbatim>\<open>headline\<close> the second throws; the
  exception reaches the caller of the middleware, the third listener is not called, and
  \<^verbatim>\<open>next\<close> is not called.
\<close>

theorem subscriber_error_counterexample:
  "is_named (Element ''message'' [(''type'', ''headline'')] []) ''message''
   \<and> listeners (on ''headline'' 3 (on ''headline'' 2 (on ''headline'' 1 (fresh ()))))
       ''headline'' = [1, 2, 3]
   \<and> outcome (middleware (faulty 2) (Element ''message'' [(''type'', ''headline'')] []) proceed
       (on ''headline'' 3 (on ''headline'' 2 (on ''headline'' 1 (fresh ())))))
     = Some (Thrown 2)
   \<and> calls (middleware (faulty 2) (Element ''message'' [(''type'', ''headline'')] []) proceed
       (on ''headline'' 3 (on ''headline'' 2 (on ''headline'' 1 (fresh ())))))
     = [CallListener 1 (Element ''message'' [(''type'', ''headline'')] []),
        CallListener 2 (Element ''message'' [(''type'', ''headline'')] [])]"
  by (simp add: is_named_def getChild_def attr_def truthy_def event_name_def
      middleware_def handle_def emit_def on_def fresh_def calls_def outcome_def)

subsection \<open>Construction\<close>

text \<open>
  C4. Without a setup function the constructor throws its configuration error at
  once: nothing has been called, and no middleware is returned that could process a
  stanza. With a setup function the constructor calls it exactly once, on a new handler,
  before it returns; the middleware works on the state the setup function has left, and
  an exception of the setup function is the constructor's.
\<close>

theorem setup_function_required:
  "message None w
     = Inl (JSError ''message middleware requires a callback function'', [], w)
   \<and> made (message (Some f) w) = [CallSetup]
   \<and> (fst (f (fresh w)) = None \<longrightarrow>
        message (Some f) w = Inr ([CallSetup], snd (f (fresh w))))
   \<and> (\<forall>e. fst (f (fresh w)) = Some e \<longrightarrow>
        message (Some f) w = Inl (e, [CallSetup], app (snd (f (fresh w)))))"
  by (cases "f (fresh w)")
     (auto simp: message_def made_def split: option.splits)

theorem setup_function_required_witness:
  "message None () = Inl (JSError ''message middleware requires a callback function'', [], ())
   \<and> message (Some chat_setup) () = Inr ([CallSetup], on ''chat'' 1 (on ''chat'' 0 (fresh ())))"
proof -
  have h: "fst (chat_setup (fresh ())) = None"
    by (simp add: chat_setup_def)
  from setup_function_required [of "()" chat_setup] h
  show ?thesis by (simp add: chat_setup_def)
qed

end
